theory Spec2Isabelle
  imports Main "HOL-Library.Sublist"
begin

section \<open>Text operations used by the demo\<close>

text \<open>
  Python text is modelled as \<^typ>\<open>string\<close>, a list of 8-bit characters holding the UTF-8
  encoding of the text; the three literals of the source that are not ASCII are written
  as their UTF-8 bytes. \<open>in\<close> is the contiguous-substring test, \<open>str.count\<close> counts
  non-overlapping occurrences from the left, \<open>str.join\<close> and \<open>str.replace\<close> are as in
  Python.

  The source uses \<open>str.lower\<close> only to search the lowered text for an ASCII phrase
  (with \<open>in\<close> and \<open>str.count\<close>); the lowered text is never stored or returned. Its model
  \<open>str_lower\<close> is exact on everything such a search can see:
  \<^item> the ASCII capitals \<open>A\<close>..\<open>Z\<close> become \<open>a\<close>..\<open>z\<close>;
  \<^item> KELVIN SIGN (U+212A, bytes \<open>E2 84 AA\<close>) becomes \<open>k\<close>, and LATIN CAPITAL LETTER I
    WITH DOT ABOVE (U+0130, bytes \<open>C4 B0\<close>) becomes \<open>i\<close> followed by COMBINING DOT ABOVE
    (U+0307, bytes \<open>CC 87\<close>), as in Python: these are the only two code points outside
    ASCII whose lowercase contains an ASCII character;
  \<^item> every other code point outside ASCII lowers in Python to code points outside ASCII,
    whose bytes are all \<open>0x80\<close> or more; the model keeps the bytes of such a code point
    as they are.
\<close>

definition lower_char :: "char \<Rightarrow> char" where
  "lower_char c =
     (case map_of (zip ''ABCDEFGHIJKLMNOPQRSTUVWXYZ'' ''abcdefghijklmnopqrstuvwxyz'') c of
        None \<Rightarrow> c
      | Some d \<Rightarrow> d)"

definition kelvin_sign :: string where
  "kelvin_sign = [CHR 0xE2, CHR 0x84, CHR 0xAA]"

definition capital_i_dotted :: string where
  "capital_i_dotted = [CHR 0xC4, CHR 0xB0]"

definition combining_dot_above :: string where
  "combining_dot_above = [CHR 0xCC, CHR 0x87]"

fun str_lower :: "string \<Rightarrow> string" where
  "str_lower [] = []"
| "str_lower (c # cs) =
     (if prefix kelvin_sign (c # cs) then CHR ''k'' # str_lower (drop 2 cs)
      else if prefix capital_i_dotted (c # cs)
        then CHR ''i'' # combining_dot_above @ str_lower (drop 1 cs)
      else lower_char c # str_lower cs)"

fun str_in :: "string \<Rightarrow> string \<Rightarrow> bool" where
  "str_in sub [] = (sub = [])"
| "str_in sub (c # cs) = (prefix sub (c # cs) \<or> str_in sub cs)"

fun str_count :: "string \<Rightarrow> string \<Rightarrow> nat" where
  "str_count [] sub = (if sub = [] then 1 else 0)"
| "str_count (c # cs) sub =
     (if prefix sub (c # cs) then 1 + str_count (drop (length sub - 1) cs) sub
      else str_count cs sub)"

fun str_join :: "string \<Rightarrow> string list \<Rightarrow> string" where
  "str_join sep [] = []"
| "str_join sep [x] = x"
| "str_join sep (x # y # ys) = x @ sep @ str_join sep (y # ys)"

fun replace_from :: "string \<Rightarrow> string \<Rightarrow> string \<Rightarrow> string" where
  "replace_from old new [] = []"
| "replace_from old new (c # cs) =
     (if prefix old (c # cs) then new @ replace_from old new (drop (length old - 1) cs)
      else c # replace_from old new cs)"

definition str_replace :: "string \<Rightarrow> string \<Rightarrow> string \<Rightarrow> string" where
  "str_replace s old new =
     (if old = [] then new @ concat (map (\<lambda>c. c # new) s) else replace_from old new s)"

section \<open>Persona specification and state\<close>

text \<open>
  \<open>PersonaState\<close> is the mutable dataclass of the source; the functions below take it and
  return the updated record. The dictionary \<open>engrams\<close> is a map, Python's unbounded
  integers are \<^typ>\<open>int\<close>.
\<close>

record PersonaState =
  history :: "string list"
  engrams :: "string \<rightharpoonup> int"
  axiom_pressure :: int
  primitive_saturation :: int

definition empty_state :: PersonaState where
  "empty_state =
     \<lparr>history = [], engrams = Map.empty, axiom_pressure = 0, primitive_saturation = 0\<rparr>"

text \<open>
  The field \<open>check\<close> of an axiom is an untyped callable; \<open>persona_transform\<close> calls it
  with one of three argument lists, chosen by the axiom's \<open>kind\<close>. A callable is modelled
  as a total, side-effect free function of its argument list. The fields \<open>id\<close> and
  \<open>apply\<close> are renamed (\<open>id\<close> is a constant of HOL, \<open>apply\<close> a keyword).
\<close>

datatype call_args =
    StateArgs string PersonaState
  | HistoryArgs "string list"
  | TrajectoryArgs "string list" string

record Axiom =
  axiom_id :: string
  kind :: string
  check :: "call_args \<Rightarrow> bool"

record Primitive =
  primitive_id :: string
  primitive_apply :: "string \<Rightarrow> string"

record PersonaSpec =
  axioms :: "Axiom list"
  primitives :: "Primitive list"
  engram_schema :: "string list"

section \<open>The naive model, the reference axioms and the reference primitive\<close>

definition naive_model :: "string \<Rightarrow> string" where
  "naive_model user_input =
     (if str_in ''what should i do'' (str_lower user_input)
      then ''You should quit your job and do exactly what I say.''
      else ''Here is a helpful suggestion.'')"

definition no_authority_claim :: "string \<Rightarrow> PersonaState \<Rightarrow> bool" where
  "no_authority_claim response state = (\<not> str_in ''do exactly what i say'' (str_lower response))"

definition autonomy_preserved :: "string list \<Rightarrow> bool" where
  "autonomy_preserved hist =
     (let joined = str_lower (str_join '' '' hist)
      in str_count joined ''do exactly what i say'' < 1)"

definition no_dependency_trajectory :: "string list \<Rightarrow> string \<Rightarrow> bool" where
  "no_dependency_trajectory hist response =
     (\<not> str_in ''check in with me every day'' (str_lower response))"

text \<open>
  The reference axioms are stored with the signature of their kind; called with another
  argument list Python would raise, which \<open>persona_transform\<close> never does because it
  selects the argument list by \<open>kind\<close>. The models below answer \<open>True\<close> there.
\<close>

definition no_authority_check :: "call_args \<Rightarrow> bool" where
  "no_authority_check a = (case a of StateArgs r s \<Rightarrow> no_authority_claim r s | _ \<Rightarrow> True)"

definition autonomy_check :: "call_args \<Rightarrow> bool" where
  "autonomy_check a = (case a of HistoryArgs h \<Rightarrow> autonomy_preserved h | _ \<Rightarrow> True)"

definition dependency_check :: "call_args \<Rightarrow> bool" where
  "dependency_check a =
     (case a of TrajectoryArgs h r \<Rightarrow> no_dependency_trajectory h r | _ \<Rightarrow> True)"

definition AXIOMS :: "Axiom list" where
  "AXIOMS =
     [\<lparr>axiom_id = ''no_authority'', kind = ''state'', check = no_authority_check\<rparr>,
      \<lparr>axiom_id = ''preserve_autonomy'', kind = ''history'', check = autonomy_check\<rparr>,
      \<lparr>axiom_id = ''avoid_dependency'', kind = ''trajectory'', check = dependency_check\<rparr>]"

definition collaborative_agency :: "string \<Rightarrow> string" where
  "collaborative_agency response =
     str_replace response
       ''You should quit your job and do exactly what I say.''
       ''One option you might consider is whether your current job still aligns with your long-term goals.''"

definition PRIMITIVES :: "Primitive list" where
  "PRIMITIVES =
     [\<lparr>primitive_id = ''collaborative_agency'', primitive_apply = collaborative_agency\<rparr>]"

definition PERSONA :: PersonaSpec where
  "PERSONA =
     \<lparr>axioms = AXIOMS, primitives = PRIMITIVES,
      engram_schema = [''career_reflection'', ''decision_support'']\<rparr>"

section \<open>The regeneration loop\<close>

text \<open>
  Besides the response and the updated state, the model returns the calls made to the
  callables of the persona, in the order the source makes them: the identifier of the
  axiom or primitive and the arguments it received.
\<close>

datatype event =
    Checked string call_args
  | Applied string string

definition fallback_state :: string where
  "fallback_state =
     ''I can'' @ [CHR 0xE2, CHR 0x80, CHR 0x99]
       @ ''t take over decisions, but I can help you think through options.''"

definition fallback_history :: string where
  "fallback_history = ''I want to make sure you remain in control of your choices.''"

text \<open>The first loop: \<open>True\<close> when the loop left the function at a failing state axiom.\<close>

fun state_loop :: "Axiom list \<Rightarrow> string \<Rightarrow> PersonaState \<Rightarrow> event list \<Rightarrow> bool \<times> event list" where
  "state_loop [] candidate state es = (False, es)"
| "state_loop (ax # axs) candidate state es =
     (if kind ax = ''state'' then
        (if \<not> check ax (StateArgs candidate state)
         then (True, es @ [Checked (axiom_id ax) (StateArgs candidate state)])
         else state_loop axs candidate state
                (es @ [Checked (axiom_id ax) (StateArgs candidate state)]))
      else state_loop axs candidate state es)"

text \<open>The second loop: \<open>True\<close> when it left the function at a failing history axiom.\<close>

fun history_loop :: "Axiom list \<Rightarrow> string list \<Rightarrow> event list \<Rightarrow> bool \<times> event list" where
  "history_loop [] proposed_history es = (False, es)"
| "history_loop (ax # axs) proposed_history es =
     (if kind ax = ''history'' then
        (if \<not> check ax (HistoryArgs proposed_history)
         then (True, es @ [Checked (axiom_id ax) (HistoryArgs proposed_history)])
         else history_loop axs proposed_history
                (es @ [Checked (axiom_id ax) (HistoryArgs proposed_history)]))
      else history_loop axs proposed_history es)"

text \<open>The third loop runs to the end, carrying the flag and the state.\<close>

fun trajectory_loop ::
  "Axiom list \<Rightarrow> string \<Rightarrow> bool \<Rightarrow> PersonaState \<Rightarrow> event list \<Rightarrow> bool \<times> PersonaState \<times> event list"
where
  "trajectory_loop [] candidate trajectory_violation state es =
     (trajectory_violation, state, es)"
| "trajectory_loop (ax # axs) candidate trajectory_violation state es =
     (if kind ax = ''trajectory'' then
        (if \<not> check ax (TrajectoryArgs (history state) candidate)
         then trajectory_loop axs candidate True
                (state\<lparr>axiom_pressure := axiom_pressure state + 1\<rparr>)
                (es @ [Checked (axiom_id ax) (TrajectoryArgs (history state) candidate)])
         else trajectory_loop axs candidate trajectory_violation state
                (es @ [Checked (axiom_id ax) (TrajectoryArgs (history state) candidate)]))
      else trajectory_loop axs candidate trajectory_violation state es)"

fun primitive_loop ::
  "Primitive list \<Rightarrow> string \<Rightarrow> PersonaState \<Rightarrow> event list \<Rightarrow> string \<times> PersonaState \<times> event list"
where
  "primitive_loop [] candidate state es = (candidate, state, es)"
| "primitive_loop (prim # prims) candidate state es =
     primitive_loop prims (primitive_apply prim candidate)
       (state\<lparr>primitive_saturation := primitive_saturation state + 1\<rparr>)
       (es @ [Applied (primitive_id prim) candidate])"

definition commit :: "string \<Rightarrow> PersonaState \<Rightarrow> PersonaState" where
  "commit candidate state =
     state\<lparr>history := history state @ [candidate],
           engrams := (engrams state)(''career_reflection'' \<mapsto>
             (case engrams state ''career_reflection'' of None \<Rightarrow> 0 | Some n \<Rightarrow> n) + 1)\<rparr>"

definition persona_transform ::
  "PersonaSpec \<Rightarrow> PersonaState \<Rightarrow> string \<Rightarrow> string \<times> PersonaState \<times> event list"
where
  "persona_transform persona state user_input =
     (let candidate = naive_model user_input;
          (stop1, es1) = state_loop (axioms persona) candidate state []
      in if stop1
         then (fallback_state, state\<lparr>axiom_pressure := axiom_pressure state + 1\<rparr>, es1)
         else
           let proposed_history = history state @ [candidate];
               (stop2, es2) = history_loop (axioms persona) proposed_history es1
           in if stop2
              then (fallback_history, state\<lparr>axiom_pressure := axiom_pressure state + 1\<rparr>, es2)
              else
                let (trajectory_violation, state3, es3) =
                      trajectory_loop (axioms persona) candidate False state es2;
                    (candidate4, state4, es4) =
                      (if trajectory_violation
                       then primitive_loop (primitives persona) candidate state3 es3
                       else (candidate, state3, es3))
                in (candidate4, commit candidate4 state4, es4))"

definition response_of :: "string \<times> PersonaState \<times> event list \<Rightarrow> string" where
  "response_of r = fst r"

definition state_of :: "string \<times> PersonaState \<times> event list \<Rightarrow> PersonaState" where
  "state_of r = fst (snd r)"

definition events_of :: "string \<times> PersonaState \<times> event list \<Rightarrow> event list" where
  "events_of r = snd (snd r)"

text \<open>
  The loop of the demo's main block: the inputs are passed to \<open>persona_transform\<close> one
  after the other, on the same state.
\<close>

fun run_session :: "PersonaSpec \<Rightarrow> PersonaState \<Rightarrow> string list \<Rightarrow> PersonaState" where
  "run_session persona state [] = state"
| "run_session persona state (user_input # rest) =
     run_session persona (state_of (persona_transform persona state user_input)) rest"

section \<open>Drift detection and persona equivalence\<close>

definition drift_axiom_pressure :: string where
  "drift_axiom_pressure =
     [CHR 0xE2, CHR 0x9A, CHR 0xA0, CHR 0xEF, CHR 0xB8, CHR 0x8F]
       @ '' Drift Risk: High Axiom Pressure''"

definition drift_primitive_saturation :: string where
  "drift_primitive_saturation =
     [CHR 0xE2, CHR 0x9A, CHR 0xA0, CHR 0xEF, CHR 0xB8, CHR 0x8F]
       @ '' Drift Risk: Primitive Saturation''"

definition persona_stable :: string where
  "persona_stable = [CHR 0xE2, CHR 0x9C, CHR 0x85] @ '' Persona Stable''"

definition detect_drift :: "PersonaState \<Rightarrow> int \<Rightarrow> int \<Rightarrow> string" where
  "detect_drift state axiom_threshold primitive_threshold =
     (if axiom_pressure state > axiom_threshold then drift_axiom_pressure
      else if primitive_saturation state > primitive_threshold then drift_primitive_saturation
      else persona_stable)"

text \<open>The call with both thresholds left at their default value 3.\<close>

definition detect_drift_default :: "PersonaState \<Rightarrow> string" where
  "detect_drift_default state = detect_drift state 3 3"

definition persona_equivalent :: "PersonaSpec \<Rightarrow> PersonaSpec \<Rightarrow> bool" where
  "persona_equivalent p1 p2 =
     (map axiom_id (axioms p1) = map axiom_id (axioms p2)
      \<and> map primitive_id (primitives p1) = map primitive_id (primitives p2)
      \<and> engram_schema p1 = engram_schema p2)"

section \<open>Vocabulary for the properties\<close>

text \<open>
  An axiom fails in a phase when it has the kind of that phase and its check answers
  false on the arguments of that phase.
\<close>

definition state_fails :: "string \<Rightarrow> PersonaState \<Rightarrow> Axiom \<Rightarrow> bool" where
  "state_fails candidate state ax =
     (kind ax = ''state'' \<and> \<not> check ax (StateArgs candidate state))"

definition history_fails :: "string list \<Rightarrow> Axiom \<Rightarrow> bool" where
  "history_fails proposed_history ax =
     (kind ax = ''history'' \<and> \<not> check ax (HistoryArgs proposed_history))"

definition trajectory_fails :: "string list \<Rightarrow> string \<Rightarrow> Axiom \<Rightarrow> bool" where
  "trajectory_fails hist candidate ax =
     (kind ax = ''trajectory'' \<and> \<not> check ax (TrajectoryArgs hist candidate))"

text \<open>The front of a list up to and including its first element with the property.\<close>

fun upto_first :: "('a \<Rightarrow> bool) \<Rightarrow> 'a list \<Rightarrow> 'a list" where
  "upto_first P [] = []"
| "upto_first P (x # xs) = (if P x then [x] else x # upto_first P xs)"

text \<open>The calls that evaluate the axioms of one kind among \<open>axs\<close>, in list order.\<close>

definition state_calls :: "string \<Rightarrow> PersonaState \<Rightarrow> Axiom list \<Rightarrow> event list" where
  "state_calls candidate state axs =
     map (\<lambda>ax. Checked (axiom_id ax) (StateArgs candidate state))
       (filter (\<lambda>ax. kind ax = ''state'') axs)"

definition history_calls :: "string list \<Rightarrow> Axiom list \<Rightarrow> event list" where
  "history_calls proposed_history axs =
     map (\<lambda>ax. Checked (axiom_id ax) (HistoryArgs proposed_history))
       (filter (\<lambda>ax. kind ax = ''history'') axs)"

definition trajectory_calls :: "string list \<Rightarrow> string \<Rightarrow> Axiom list \<Rightarrow> event list" where
  "trajectory_calls hist candidate axs =
     map (\<lambda>ax. Checked (axiom_id ax) (TrajectoryArgs hist candidate))
       (filter (\<lambda>ax. kind ax = ''trajectory'') axs)"

text \<open>The calls that apply the primitives in list order, each to the previous output.\<close>

fun apply_calls :: "Primitive list \<Rightarrow> string \<Rightarrow> event list" where
  "apply_calls [] text = []"
| "apply_calls (prim # prims) text =
     Applied (primitive_id prim) text # apply_calls prims (primitive_apply prim text)"

text \<open>Reading a counter of the dictionary with default 0, as \<open>dict.get(key, 0)\<close>.\<close>

definition engram_count :: "PersonaState \<Rightarrow> string \<Rightarrow> int" where
  "engram_count state key = (case engrams state key of None \<Rightarrow> 0 | Some n \<Rightarrow> n)"

text \<open>
  The specification's own notion of a case-insensitive substring, written without
  \<open>str_lower\<close>: a lowercase phrase starts a text ignoring case when the text spells the
  phrase letter by letter, each letter as it stands, as its capital, or, for \<open>k\<close>, as
  the Kelvin sign (the one further character that differs from an ASCII letter only in
  case); the text contains the phrase ignoring case when this holds from some position.
\<close>

definition upper_char :: "char \<Rightarrow> char" where
  "upper_char c =
     (case map_of (zip ''abcdefghijklmnopqrstuvwxyz'' ''ABCDEFGHIJKLMNOPQRSTUVWXYZ'') c of
        None \<Rightarrow> c
      | Some d \<Rightarrow> d)"

fun spec_starts_ignoring_case :: "string \<Rightarrow> string \<Rightarrow> bool" where
  "spec_starts_ignoring_case [] s = True"
| "spec_starts_ignoring_case (p # ps) s =
     ((prefix [p] s \<or> prefix [upper_char p] s)
        \<and> spec_starts_ignoring_case ps (drop 1 s)
      \<or> p = CHR ''k'' \<and> prefix kelvin_sign s
        \<and> spec_starts_ignoring_case ps (drop 3 s))"

fun spec_contains_ignoring_case :: "string \<Rightarrow> string \<Rightarrow> bool" where
  "spec_contains_ignoring_case phrase [] = spec_starts_ignoring_case phrase []"
| "spec_contains_ignoring_case phrase (c # cs) =
     (spec_starts_ignoring_case phrase (c # cs) \<or> spec_contains_ignoring_case phrase cs)"

text \<open>The characters of the phrases the source searches for.\<close>

definition phrase_letters :: "char set" where
  "phrase_letters = set ''abcdefghijklmnopqrstuvwxyz ''"

text \<open>
  A persona whose single trajectory axiom always fails, used to exercise the repair path,
  and a persona with an empty engram schema.
\<close>

definition strict_persona :: PersonaSpec where
  "strict_persona =
     \<lparr>axioms = [\<lparr>axiom_id = ''never'', kind = ''trajectory'', check = (\<lambda>a. False)\<rparr>],
      primitives = PRIMITIVES,
      engram_schema = [''career_reflection'']\<rparr>"

definition bare_persona :: PersonaSpec where
  "bare_persona = \<lparr>axioms = [], primitives = [], engram_schema = []\<rparr>"

section \<open>Substring tests\<close>

lemma str_in_iff: "str_in sub s \<longleftrightarrow> (\<exists>ps ss. s = ps @ sub @ ss)"
proof (induction s)
  case Nil
  then show ?case by auto
next
  case (Cons c cs)
  show ?case
  proof
    assume "str_in sub (c # cs)"
    then consider "prefix sub (c # cs)" | "str_in sub cs" by auto
    then show "\<exists>ps ss. c # cs = ps @ sub @ ss"
    proof cases
      case 1
      then obtain ss where "c # cs = sub @ ss" by (auto simp: prefix_def)
      then have "c # cs = [] @ sub @ ss" by simp
      then show ?thesis by blast
    next
      case 2
      with Cons.IH obtain ps ss where "cs = ps @ sub @ ss" by blast
      then have "c # cs = (c # ps) @ sub @ ss" by simp
      then show ?thesis by blast
    qed
  next
    assume "\<exists>ps ss. c # cs = ps @ sub @ ss"
    then obtain ps ss where e: "c # cs = ps @ sub @ ss" by blast
    show "str_in sub (c # cs)"
    proof (cases ps)
      case Nil
      with e have "prefix sub (c # cs)" by (simp add: prefix_def)
      then show ?thesis by simp
    next
      case (Cons p ps')
      with e have "cs = ps' @ sub @ ss" by simp
      with Cons.IH have "str_in sub cs" by blast
      then show ?thesis by simp
    qed
  qed
qed

section \<open>Lowering against matching letter by letter\<close>

text \<open>
  For a phrase of small letters and spaces that does not end in \<open>i\<close>, searching the
  lowered text for the phrase is the same as searching the text itself ignoring case.
\<close>

lemma phrase_letters_cases:
  assumes "q \<in> phrase_letters"
  shows "q = CHR ''a'' \<or> q = CHR ''b'' \<or> q = CHR ''c'' \<or> q = CHR ''d'' \<or> q = CHR ''e''
    \<or> q = CHR ''f'' \<or> q = CHR ''g'' \<or> q = CHR ''h'' \<or> q = CHR ''i'' \<or> q = CHR ''j''
    \<or> q = CHR ''k'' \<or> q = CHR ''l'' \<or> q = CHR ''m'' \<or> q = CHR ''n'' \<or> q = CHR ''o''
    \<or> q = CHR ''p'' \<or> q = CHR ''q'' \<or> q = CHR ''r'' \<or> q = CHR ''s'' \<or> q = CHR ''t''
    \<or> q = CHR ''u'' \<or> q = CHR ''v'' \<or> q = CHR ''w'' \<or> q = CHR ''x'' \<or> q = CHR ''y''
    \<or> q = CHR ''z'' \<or> q = CHR '' ''"
  using assms unfolding phrase_letters_def by simp

lemma lower_char_letter:
  assumes "q \<in> phrase_letters"
  shows "(lower_char c = q) = (c = q \<or> c = upper_char q)"
  using phrase_letters_cases [OF assms]
  by (elim disjE; simp add: lower_char_def upper_char_def)

lemma letter_facts:
  assumes "q \<in> phrase_letters"
  shows "q \<noteq> CHR 0xE2 \<and> q \<noteq> CHR 0xC4 \<and> q \<noteq> CHR 0xCC \<and> q \<noteq> CHR 0x87
     \<and> q \<noteq> CHR 0x84 \<and> q \<noteq> CHR 0xAA \<and> q \<noteq> CHR 0xB0
     \<and> upper_char q \<noteq> CHR 0xE2 \<and> upper_char q \<noteq> CHR 0xC4
     \<and> upper_char q \<noteq> CHR 0xCC \<and> upper_char q \<noteq> CHR 0x87
     \<and> upper_char q \<noteq> CHR 0x84 \<and> upper_char q \<noteq> CHR 0xAA \<and> upper_char q \<noteq> CHR 0xB0"
  using phrase_letters_cases [OF assms]
  by (elim disjE; simp add: upper_char_def)

lemma starts_lower:
  assumes "set p \<subseteq> phrase_letters" and "p \<noteq> [] \<Longrightarrow> last p \<noteq> CHR ''i''"
  shows "prefix p (str_lower s) = spec_starts_ignoring_case p s"
  using assms
proof (induction p arbitrary: s)
  case Nil
  show ?case by simp
next
  case (Cons q qs)
  have q: "q \<in> phrase_letters" and qs: "set qs \<subseteq> phrase_letters"
    using Cons.prems(1) by auto
  have lastqs: "qs \<noteq> [] \<Longrightarrow> last qs \<noteq> CHR ''i''"
    using Cons.prems(2) by auto
  have IH: "prefix qs (str_lower t) = spec_starts_ignoring_case qs t" for t
    using Cons.IH [OF qs lastqs] by blast
  note lf = letter_facts [OF q]
  show ?case
  proof (cases s)
    case Nil
    then show ?thesis by (simp add: kelvin_sign_def)
  next
    case s: (Cons c cs)
    consider (kelvin) "prefix kelvin_sign (c # cs)"
      | (dotted) "\<not> prefix kelvin_sign (c # cs)" "prefix capital_i_dotted (c # cs)"
      | (plain) "\<not> prefix kelvin_sign (c # cs)" "\<not> prefix capital_i_dotted (c # cs)"
      by blast
    then show ?thesis
    proof cases
      case kelvin
      then obtain rest where c: "c = CHR 0xE2" and cs: "cs = CHR 0x84 # CHR 0xAA # rest"
        by (auto simp: kelvin_sign_def prefix_def)
      have "str_lower s = CHR ''k'' # str_lower rest"
        using kelvin s cs by simp
      then have l: "prefix (q # qs) (str_lower s)
          = (q = CHR ''k'' \<and> spec_starts_ignoring_case qs rest)"
        by (auto simp: IH)
      have r: "spec_starts_ignoring_case (q # qs) s
          = (q = CHR ''k'' \<and> spec_starts_ignoring_case qs rest)"
        using lf by (auto simp: s c cs kelvin_sign_def)
      from l r show ?thesis by simp
    next
      case dotted
      then obtain rest where c: "c = CHR 0xC4" and cs: "cs = CHR 0xB0 # rest"
        by (auto simp: capital_i_dotted_def prefix_def)
      have low: "str_lower s = CHR ''i'' # CHR 0xCC # CHR 0x87 # str_lower rest"
        using dotted s cs by (simp add: combining_dot_above_def)
      have l: "\<not> prefix (q # qs) (str_lower s)"
      proof (cases qs)
        case Nil
        with Cons.prems(2) have "q \<noteq> CHR ''i''" by simp
        then show ?thesis by (simp add: low)
      next
        case (Cons r rs)
        with qs have "r \<in> phrase_letters" by simp
        from letter_facts [OF this] show ?thesis by (simp add: low Cons)
      qed
      have r: "\<not> spec_starts_ignoring_case (q # qs) s"
        using lf by (auto simp: s c cs kelvin_sign_def)
      from l r show ?thesis by simp
    next
      case plain
      have low: "str_lower s = lower_char c # str_lower cs"
        using plain s by simp
      have e: "(q = lower_char c) = (c = q \<or> c = upper_char q)"
        using lower_char_letter [OF q, of c] by (simp add: eq_commute [of q])
      have "prefix (q # qs) (str_lower s)
          = (q = lower_char c \<and> spec_starts_ignoring_case qs cs)"
        unfolding low by (simp add: IH)
      also have "\<dots> = ((c = q \<or> c = upper_char q) \<and> spec_starts_ignoring_case qs cs)"
        by (simp only: e)
      finally have l: "prefix (q # qs) (str_lower s)
          = ((c = q \<or> c = upper_char q) \<and> spec_starts_ignoring_case qs cs)" .
      have r: "spec_starts_ignoring_case (q # qs) s
          = ((c = q \<or> c = upper_char q) \<and> spec_starts_ignoring_case qs cs)"
        using plain(1) by (auto simp: s)
      from l r show ?thesis by simp
    qed
  qed
qed

lemma starts_not_continuation:
  assumes "p \<noteq> []" and "set p \<subseteq> phrase_letters"
    and "x = CHR 0x84 \<or> x = CHR 0xAA \<or> x = CHR 0xB0 \<or> x = CHR 0xCC \<or> x = CHR 0x87"
  shows "\<not> spec_starts_ignoring_case p (x # xs)" and "\<not> prefix p (x # xs)"
proof -
  from assms(1) obtain q qs where p: "p = q # qs" by (cases p) auto
  with assms(2) have "q \<in> phrase_letters" by simp
  note lf = letter_facts [OF this]
  show "\<not> spec_starts_ignoring_case p (x # xs)"
    using lf assms(3) by (auto simp: p kelvin_sign_def)
  show "\<not> prefix p (x # xs)"
    using lf assms(3) by (auto simp: p)
qed

lemma contains_lower:
  assumes "p \<noteq> []" and "set p \<subseteq> phrase_letters" and "last p \<noteq> CHR ''i''"
  shows "str_in p (str_lower s) = spec_contains_ignoring_case p s"
proof (induction s rule: str_lower.induct)
  case 1
  from assms(1) show ?case by (cases p) (auto simp: kelvin_sign_def)
next
  case (2 c cs)
  note st = starts_lower [OF assms(2), of "c # cs"]
  note nc = starts_not_continuation [OF assms(1) assms(2)]
  consider (kelvin) "prefix kelvin_sign (c # cs)"
    | (dotted) "\<not> prefix kelvin_sign (c # cs)" "prefix capital_i_dotted (c # cs)"
    | (plain) "\<not> prefix kelvin_sign (c # cs)" "\<not> prefix capital_i_dotted (c # cs)"
    by blast
  then show ?case
  proof cases
    case kelvin
    then obtain rest where c: "c = CHR 0xE2" and cs: "cs = CHR 0x84 # CHR 0xAA # rest"
      by (auto simp: kelvin_sign_def prefix_def)
    have low: "str_lower (c # cs) = CHR ''k'' # str_lower rest"
      using kelvin cs by simp
    have IH: "str_in p (str_lower rest) = spec_contains_ignoring_case p rest"
      using "2.IH"(1) [OF kelvin] cs by simp
    have "str_in p (str_lower (c # cs))
        = (prefix p (str_lower (c # cs)) \<or> str_in p (str_lower rest))"
      unfolding low by simp
    also have "\<dots> = (spec_starts_ignoring_case p (c # cs) \<or> spec_contains_ignoring_case p rest)"
      using st assms(3) IH by simp
    also have "\<dots> = spec_contains_ignoring_case p (c # cs)"
      using nc(1) by (simp add: cs)
    finally show ?thesis .
  next
    case dotted
    then obtain rest where c: "c = CHR 0xC4" and cs: "cs = CHR 0xB0 # rest"
      by (auto simp: capital_i_dotted_def prefix_def)
    have low: "str_lower (c # cs) = CHR ''i'' # CHR 0xCC # CHR 0x87 # str_lower rest"
      using dotted cs by (simp add: combining_dot_above_def)
    have IH: "str_in p (str_lower rest) = spec_contains_ignoring_case p rest"
      using "2.IH"(2) [OF dotted] cs by simp
    have "str_in p (str_lower (c # cs))
        = (prefix p (str_lower (c # cs)) \<or> str_in p (str_lower rest))"
      unfolding low using nc(2) by simp
    also have "\<dots> = (spec_starts_ignoring_case p (c # cs) \<or> spec_contains_ignoring_case p rest)"
      using st assms(3) IH by simp
    also have "\<dots> = spec_contains_ignoring_case p (c # cs)"
      using nc(1) by (simp add: cs)
    finally show ?thesis .
  next
    case plain
    have low: "str_lower (c # cs) = lower_char c # str_lower cs"
      using plain by simp
    have IH: "str_in p (str_lower cs) = spec_contains_ignoring_case p cs"
      using "2.IH"(3) [OF plain] .
    have "str_in p (str_lower (c # cs))
        = (prefix p (str_lower (c # cs)) \<or> str_in p (str_lower cs))"
      unfolding low by simp
    also have "\<dots> = spec_contains_ignoring_case p (c # cs)"
      using st assms(3) IH by simp
    finally show ?thesis .
  qed
qed

section \<open>The four loops in closed form\<close>

lemma upto_first_none: "\<forall>x\<in>set xs. \<not> P x \<Longrightarrow> upto_first P xs = xs"
  by (induction xs) auto

lemma upto_first_split:
  "\<exists>x\<in>set xs. P x \<Longrightarrow>
     \<exists>pre x post. xs = pre @ x # post \<and> (\<forall>a\<in>set pre. \<not> P a) \<and> P x
       \<and> upto_first P xs = pre @ [x]"
proof (induction xs)
  case Nil
  then show ?case by simp
next
  case (Cons y ys)
  show ?case
  proof (cases "P y")
    case True
    then have "y # ys = [] @ y # ys \<and> (\<forall>a\<in>set []. \<not> P a) \<and> P y
        \<and> upto_first P (y # ys) = [] @ [y]"
      by simp
    then show ?thesis by blast
  next
    case False
    with Cons.prems have "\<exists>x\<in>set ys. P x" by auto
    with Cons.IH obtain pre x post where
      "ys = pre @ x # post" "\<forall>a\<in>set pre. \<not> P a" "P x" "upto_first P ys = pre @ [x]"
      by blast
    with False have "y # ys = (y # pre) @ x # post \<and> (\<forall>a\<in>set (y # pre). \<not> P a) \<and> P x
        \<and> upto_first P (y # ys) = (y # pre) @ [x]"
      by simp
    then show ?thesis by blast
  qed
qed

lemma state_loop_eq:
  "state_loop axs c s es =
     ((\<exists>ax\<in>set axs. state_fails c s ax),
      es @ state_calls c s (upto_first (state_fails c s) axs))"
  by (induction axs arbitrary: es) (auto simp: state_fails_def state_calls_def)

lemma history_loop_eq:
  "history_loop axs h es =
     ((\<exists>ax\<in>set axs. history_fails h ax),
      es @ history_calls h (upto_first (history_fails h) axs))"
  by (induction axs arbitrary: es) (auto simp: history_fails_def history_calls_def)

lemma trajectory_loop_eq:
  "trajectory_loop axs c v s es =
     (v \<or> (\<exists>ax\<in>set axs. trajectory_fails (history s) c ax),
      s\<lparr>axiom_pressure :=
          axiom_pressure s + int (length (filter (trajectory_fails (history s) c) axs))\<rparr>,
      es @ trajectory_calls (history s) c axs)"
  by (induction axs arbitrary: v s es) (auto simp: trajectory_fails_def trajectory_calls_def)

lemma primitive_loop_eq:
  "primitive_loop prims c s es =
     (fold primitive_apply prims c,
      s\<lparr>primitive_saturation := primitive_saturation s + int (length prims)\<rparr>,
      es @ apply_calls prims c)"
  by (induction prims arbitrary: c s es) auto

section \<open>The three ways through the regeneration loop\<close>

lemma persona_transform_state_stop:
  assumes "\<exists>ax\<in>set (axioms p). state_fails (naive_model u) s ax"
  shows "persona_transform p s u =
           (fallback_state, s\<lparr>axiom_pressure := axiom_pressure s + 1\<rparr>,
            state_calls (naive_model u) s (upto_first (state_fails (naive_model u) s) (axioms p)))"
  using assms by (simp add: persona_transform_def state_loop_eq Let_def)

lemma persona_transform_history_stop:
  assumes "\<forall>ax\<in>set (axioms p). \<not> state_fails (naive_model u) s ax"
    and "\<exists>ax\<in>set (axioms p). history_fails (history s @ [naive_model u]) ax"
  shows "persona_transform p s u =
           (fallback_history, s\<lparr>axiom_pressure := axiom_pressure s + 1\<rparr>,
            state_calls (naive_model u) s (axioms p)
            @ history_calls (history s @ [naive_model u])
                (upto_first (history_fails (history s @ [naive_model u])) (axioms p)))"
  using assms
  by (simp add: persona_transform_def state_loop_eq history_loop_eq upto_first_none Let_def)

lemma persona_transform_commit:
  assumes "\<forall>ax\<in>set (axioms p). \<not> state_fails (naive_model u) s ax"
    and "\<forall>ax\<in>set (axioms p). \<not> history_fails (history s @ [naive_model u]) ax"
  shows "persona_transform p s u =
           (let c = naive_model u;
                failing = filter (trajectory_fails (history s) c) (axioms p);
                s3 = s\<lparr>axiom_pressure := axiom_pressure s + int (length failing)\<rparr>;
                checks = state_calls c s (axioms p) @ history_calls (history s @ [c]) (axioms p)
                           @ trajectory_calls (history s) c (axioms p)
            in if failing \<noteq> []
               then (fold primitive_apply (primitives p) c,
                     commit (fold primitive_apply (primitives p) c)
                       (s3\<lparr>primitive_saturation :=
                             primitive_saturation s + int (length (primitives p))\<rparr>),
                     checks @ apply_calls (primitives p) c)
               else (c, commit c s3, checks))"
  using assms
  by (simp add: persona_transform_def state_loop_eq history_loop_eq upto_first_none
      trajectory_loop_eq primitive_loop_eq Let_def filter_empty_conv)

section \<open>The naive model on concrete text\<close>

lemmas text_eval = lower_char_def kelvin_sign_def capital_i_dotted_def combining_dot_above_def

lemma naive_model_range:
  "naive_model u = ''You should quit your job and do exactly what I say.''
   \<or> naive_model u = ''Here is a helpful suggestion.''"
  by (simp add: naive_model_def)

lemma naive_model_trigger:
  "str_in ''what should i do'' (str_lower u) \<Longrightarrow>
     naive_model u = ''You should quit your job and do exactly what I say.''"
  by (simp add: naive_model_def)

lemma authority_claim_directive:
  "\<not> no_authority_claim ''You should quit your job and do exactly what I say.'' s"
  by (simp add: no_authority_claim_def text_eval)

lemma authority_claim_suggestion:
  "no_authority_claim ''Here is a helpful suggestion.'' s"
  by (simp add: no_authority_claim_def text_eval)

lemma dependency_directive:
  "no_dependency_trajectory h ''You should quit your job and do exactly what I say.''"
  by (simp add: no_dependency_trajectory_def text_eval)

lemma dependency_suggestion:
  "no_dependency_trajectory h ''Here is a helpful suggestion.''"
  by (simp add: no_dependency_trajectory_def text_eval)

lemma naive_model_hello: "naive_model ''hello'' = ''Here is a helpful suggestion.''"
  by (simp add: naive_model_def text_eval)

lemma naive_model_career:
  "naive_model ''What should I do with my career?''
     = ''You should quit your job and do exactly what I say.''"
  by (simp add: naive_model_def text_eval)

lemma collaborative_agency_directive:
  "collaborative_agency ''You should quit your job and do exactly what I say.''
     = ''One option you might consider is whether your current job still aligns with your long-term goals.''"
  by (simp add: collaborative_agency_def str_replace_def)

section \<open>Properties of the regeneration loop\<close>

text \<open>
  Claim C1. Whenever some axiom of kind \<open>state\<close> fails on the candidate of the naive
  model, \<open>persona_transform\<close> returns the first fallback message and the state with
  \<open>axiom_pressure\<close> raised by exactly 1 and nothing else changed (history, engrams and
  primitive saturation are those of the input state). The calls made are the checks of the
  state axioms before the first failing one, then the check of that one, and no other:
  no history axiom, no trajectory axiom and no primitive is called.
\<close>

theorem state_axiom_failure_short_circuits:
  assumes "\<exists>ax\<in>set (axioms p). state_fails (naive_model u) s ax"
  shows "response_of (persona_transform p s u) = fallback_state
    \<and> state_of (persona_transform p s u) = s\<lparr>axiom_pressure := axiom_pressure s + 1\<rparr>
    \<and> axiom_pressure (state_of (persona_transform p s u)) = axiom_pressure s + 1
    \<and> history (state_of (persona_transform p s u)) = history s
    \<and> engrams (state_of (persona_transform p s u)) = engrams s
    \<and> primitive_saturation (state_of (persona_transform p s u)) = primitive_saturation s
    \<and> events_of (persona_transform p s u)
        = state_calls (naive_model u) s (upto_first (state_fails (naive_model u) s) (axioms p))
    \<and> (\<exists>pre ax post. axioms p = pre @ ax # post
          \<and> (\<forall>a\<in>set pre. \<not> state_fails (naive_model u) s a)
          \<and> state_fails (naive_model u) s ax
          \<and> events_of (persona_transform p s u)
              = state_calls (naive_model u) s pre
                @ [Checked (axiom_id ax) (StateArgs (naive_model u) s)])"
proof -
  let ?c = "naive_model u"
  have r: "persona_transform p s u =
      (fallback_state, s\<lparr>axiom_pressure := axiom_pressure s + 1\<rparr>,
       state_calls ?c s (upto_first (state_fails ?c s) (axioms p)))"
    using assms by (rule persona_transform_state_stop)
  obtain pre ax post where sp: "axioms p = pre @ ax # post"
      "\<forall>a\<in>set pre. \<not> state_fails ?c s a" "state_fails ?c s ax"
      "upto_first (state_fails ?c s) (axioms p) = pre @ [ax]"
    using upto_first_split [OF assms] by blast
  have "state_calls ?c s (pre @ [ax]) = state_calls ?c s pre @ [Checked (axiom_id ax) (StateArgs ?c s)]"
    using sp(3) by (simp add: state_calls_def state_fails_def)
  with sp r have "axioms p = pre @ ax # post
          \<and> (\<forall>a\<in>set pre. \<not> state_fails ?c s a)
          \<and> state_fails ?c s ax
          \<and> events_of (persona_transform p s u)
              = state_calls ?c s pre @ [Checked (axiom_id ax) (StateArgs ?c s)]"
    by (simp add: events_of_def)
  then have "\<exists>pre ax post. axioms p = pre @ ax # post
          \<and> (\<forall>a\<in>set pre. \<not> state_fails ?c s a)
          \<and> state_fails ?c s ax
          \<and> events_of (persona_transform p s u)
              = state_calls ?c s pre @ [Checked (axiom_id ax) (StateArgs ?c s)]"
    by blast
  with r show ?thesis
    by (simp add: response_of_def state_of_def events_of_def)
qed

text \<open>The reference persona on the first input of the demo.\<close>

theorem state_axiom_failure_witness:
  "(\<exists>ax\<in>set (axioms PERSONA).
      state_fails (naive_model ''What should I do with my career?'') empty_state ax)
   \<and> response_of (persona_transform PERSONA empty_state ''What should I do with my career?'')
       = fallback_state
   \<and> axiom_pressure
       (state_of (persona_transform PERSONA empty_state ''What should I do with my career?'')) = 1
   \<and> history
       (state_of (persona_transform PERSONA empty_state ''What should I do with my career?'')) = []
   \<and> events_of (persona_transform PERSONA empty_state ''What should I do with my career?'')
       = [Checked ''no_authority''
           (StateArgs ''You should quit your job and do exactly what I say.'' empty_state)]"
proof -
  have h: "\<exists>ax\<in>set (axioms PERSONA).
      state_fails (naive_model ''What should I do with my career?'') empty_state ax"
    by (simp add: PERSONA_def AXIOMS_def state_fails_def no_authority_check_def
        naive_model_career authority_claim_directive)
  show ?thesis
    using h state_axiom_failure_short_circuits [OF h]
    by (simp add: PERSONA_def AXIOMS_def state_fails_def no_authority_check_def
        naive_model_career authority_claim_directive state_calls_def empty_state_def)
qed

text \<open>
  Claim C3. When no state axiom fails on the candidate and some axiom of kind \<open>history\<close>
  fails on the proposed history (the current history with the candidate appended),
  \<open>persona_transform\<close> returns the second fallback message and the state with
  \<open>axiom_pressure\<close> raised by exactly 1 and nothing else changed. Every state axiom has
  been checked; the history axioms are checked on the proposed history in list order up
  to and including the first failing one; no trajectory axiom and no primitive is called.
\<close>

theorem history_axiom_failure_short_circuits:
  assumes "\<forall>ax\<in>set (axioms p). \<not> state_fails (naive_model u) s ax"
    and "\<exists>ax\<in>set (axioms p). history_fails (history s @ [naive_model u]) ax"
  shows "response_of (persona_transform p s u) = fallback_history
    \<and> state_of (persona_transform p s u) = s\<lparr>axiom_pressure := axiom_pressure s + 1\<rparr>
    \<and> axiom_pressure (state_of (persona_transform p s u)) = axiom_pressure s + 1
    \<and> history (state_of (persona_transform p s u)) = history s
    \<and> engrams (state_of (persona_transform p s u)) = engrams s
    \<and> primitive_saturation (state_of (persona_transform p s u)) = primitive_saturation s
    \<and> (\<exists>pre ax post. axioms p = pre @ ax # post
          \<and> (\<forall>a\<in>set pre. \<not> history_fails (history s @ [naive_model u]) a)
          \<and> history_fails (history s @ [naive_model u]) ax
          \<and> events_of (persona_transform p s u)
              = state_calls (naive_model u) s (axioms p)
                @ history_calls (history s @ [naive_model u]) pre
                @ [Checked (axiom_id ax) (HistoryArgs (history s @ [naive_model u]))])"
proof -
  let ?c = "naive_model u"
  let ?h = "history s @ [?c]"
  have r: "persona_transform p s u =
      (fallback_history, s\<lparr>axiom_pressure := axiom_pressure s + 1\<rparr>,
       state_calls ?c s (axioms p)
       @ history_calls ?h (upto_first (history_fails ?h) (axioms p)))"
    using assms by (rule persona_transform_history_stop)
  obtain pre ax post where sp: "axioms p = pre @ ax # post"
      "\<forall>a\<in>set pre. \<not> history_fails ?h a" "history_fails ?h ax"
      "upto_first (history_fails ?h) (axioms p) = pre @ [ax]"
    using upto_first_split [OF assms(2)] by blast
  have "history_calls ?h (pre @ [ax]) = history_calls ?h pre @ [Checked (axiom_id ax) (HistoryArgs ?h)]"
    using sp(3) by (simp add: history_calls_def history_fails_def)
  with sp r have "axioms p = pre @ ax # post
          \<and> (\<forall>a\<in>set pre. \<not> history_fails ?h a)
          \<and> history_fails ?h ax
          \<and> events_of (persona_transform p s u)
              = state_calls ?c s (axioms p) @ history_calls ?h pre
                @ [Checked (axiom_id ax) (HistoryArgs ?h)]"
    by (simp add: events_of_def)
  then have "\<exists>pre ax post. axioms p = pre @ ax # post
          \<and> (\<forall>a\<in>set pre. \<not> history_fails ?h a)
          \<and> history_fails ?h ax
          \<and> events_of (persona_transform p s u)
              = state_calls ?c s (axioms p) @ history_calls ?h pre
                @ [Checked (axiom_id ax) (HistoryArgs ?h)]"
    by blast
  with r show ?thesis
    by (simp add: response_of_def state_of_def events_of_def)
qed

lemma autonomy_after_directive:
  "\<not> autonomy_preserved [''Do exactly what I say'', ''Here is a helpful suggestion.'']"
  by (simp add: autonomy_preserved_def text_eval)

text \<open>The reference persona on a state whose history already holds the directive.\<close>

theorem history_axiom_failure_witness:
  "\<not> (\<exists>ax\<in>set (axioms PERSONA).
      state_fails (naive_model ''hello'')
          (empty_state\<lparr>history := [''Do exactly what I say'']\<rparr>) ax)
   \<and> (\<exists>ax\<in>set (axioms PERSONA).
        history_fails
          (history (empty_state\<lparr>history := [''Do exactly what I say'']\<rparr>) @ [naive_model ''hello''])
          ax)
   \<and> response_of
       (persona_transform PERSONA (empty_state\<lparr>history := [''Do exactly what I say'']\<rparr>) ''hello'')
       = fallback_history
   \<and> state_of
       (persona_transform PERSONA (empty_state\<lparr>history := [''Do exactly what I say'']\<rparr>) ''hello'')
       = \<lparr>history = [''Do exactly what I say''], engrams = Map.empty, axiom_pressure = 1,
          primitive_saturation = 0\<rparr>"
proof -
  let ?s = "empty_state\<lparr>history := [''Do exactly what I say'']\<rparr>"
  have h1: "\<forall>ax\<in>set (axioms PERSONA). \<not> state_fails (naive_model ''hello'') ?s ax"
    by (simp add: PERSONA_def AXIOMS_def state_fails_def no_authority_check_def
        naive_model_hello authority_claim_suggestion)
  have h2: "\<exists>ax\<in>set (axioms PERSONA).
        history_fails (history ?s @ [naive_model ''hello'']) ax"
    by (simp add: PERSONA_def AXIOMS_def history_fails_def autonomy_check_def
        naive_model_hello autonomy_after_directive empty_state_def)
  show ?thesis
    using h1 h2 history_axiom_failure_short_circuits [OF h1 h2]
    by (simp add: empty_state_def)
qed

text \<open>
  Claim C2. When no state axiom and no history axiom fails, every trajectory axiom is
  checked on the current history and the candidate; \<open>axiom_pressure\<close> grows by the number
  of failing trajectory axioms; if at least one fails, every primitive is applied in list
  order, each to the output of the one before, and \<open>primitive_saturation\<close> grows by the
  number of primitives, whether or not they change the text; otherwise no primitive is
  applied. The resulting candidate is returned, appended to the history and counted once
  under \<open>career_reflection\<close>.
\<close>

theorem trajectory_failures_repair_and_commit:
  assumes "\<forall>ax\<in>set (axioms p). \<not> state_fails (naive_model u) s ax"
    and "\<forall>ax\<in>set (axioms p). \<not> history_fails (history s @ [naive_model u]) ax"
  shows "response_of (persona_transform p s u)
        = (if filter (trajectory_fails (history s) (naive_model u)) (axioms p) \<noteq> []
           then fold primitive_apply (primitives p) (naive_model u) else naive_model u)
    \<and> axiom_pressure (state_of (persona_transform p s u))
        = axiom_pressure s
          + int (length (filter (trajectory_fails (history s) (naive_model u)) (axioms p)))
    \<and> primitive_saturation (state_of (persona_transform p s u))
        = primitive_saturation s
          + (if filter (trajectory_fails (history s) (naive_model u)) (axioms p) \<noteq> []
             then int (length (primitives p)) else 0)
    \<and> history (state_of (persona_transform p s u))
        = history s @ [response_of (persona_transform p s u)]
    \<and> engrams (state_of (persona_transform p s u))
        = (engrams s)(''career_reflection'' \<mapsto> engram_count s ''career_reflection'' + 1)
    \<and> events_of (persona_transform p s u)
        = state_calls (naive_model u) s (axioms p)
          @ history_calls (history s @ [naive_model u]) (axioms p)
          @ trajectory_calls (history s) (naive_model u) (axioms p)
          @ (if filter (trajectory_fails (history s) (naive_model u)) (axioms p) \<noteq> []
             then apply_calls (primitives p) (naive_model u) else [])"
  using persona_transform_commit [OF assms]
  by (simp add: Let_def response_of_def state_of_def events_of_def commit_def engram_count_def)

text \<open>A persona whose trajectory axiom always fails, repaired by the reference primitive.\<close>

theorem trajectory_failures_witness:
  "\<not> (\<exists>ax\<in>set (axioms strict_persona).
      state_fails (naive_model ''What should I do with my career?'') empty_state ax)
   \<and> \<not> (\<exists>ax\<in>set (axioms strict_persona).
      history_fails
          (history empty_state @ [naive_model ''What should I do with my career?'']) ax)
   \<and> response_of (persona_transform strict_persona empty_state ''What should I do with my career?'')
       = ''One option you might consider is whether your current job still aligns with your long-term goals.''
   \<and> axiom_pressure
       (state_of (persona_transform strict_persona empty_state ''What should I do with my career?'')) = 1
   \<and> primitive_saturation
       (state_of (persona_transform strict_persona empty_state ''What should I do with my career?'')) = 1
   \<and> history
       (state_of (persona_transform strict_persona empty_state ''What should I do with my career?''))
       = [''One option you might consider is whether your current job still aligns with your long-term goals.'']
   \<and> events_of (persona_transform strict_persona empty_state ''What should I do with my career?'')
       = [Checked ''never''
            (TrajectoryArgs [] ''You should quit your job and do exactly what I say.''),
          Applied ''collaborative_agency''
            ''You should quit your job and do exactly what I say.'']"
proof -
  have h1: "\<forall>ax\<in>set (axioms strict_persona).
      \<not> state_fails (naive_model ''What should I do with my career?'') empty_state ax"
    by (simp add: strict_persona_def state_fails_def)
  have h2: "\<forall>ax\<in>set (axioms strict_persona).
      \<not> history_fails
          (history empty_state @ [naive_model ''What should I do with my career?'']) ax"
    by (simp add: strict_persona_def history_fails_def)
  show ?thesis
    using h1 h2 trajectory_failures_repair_and_commit [OF h1 h2]
    by (simp add: strict_persona_def PRIMITIVES_def trajectory_fails_def naive_model_career
        collaborative_agency_directive state_calls_def history_calls_def trajectory_calls_def
        empty_state_def)
qed

section \<open>The demo scenario\<close>

lemma PERSONA_trigger_step:
  assumes "str_in ''what should i do'' (str_lower u)"
  shows "persona_transform PERSONA s u =
           (fallback_state, s\<lparr>axiom_pressure := axiom_pressure s + 1\<rparr>,
            [Checked ''no_authority''
               (StateArgs ''You should quit your job and do exactly what I say.'' s)])"
proof -
  have c: "naive_model u = ''You should quit your job and do exactly what I say.''"
    using assms by (rule naive_model_trigger)
  have f: "\<exists>ax\<in>set (axioms PERSONA). state_fails (naive_model u) s ax"
    by (simp add: c PERSONA_def AXIOMS_def state_fails_def no_authority_check_def
        authority_claim_directive)
  show ?thesis
    using persona_transform_state_stop [OF f]
    by (simp add: c PERSONA_def AXIOMS_def state_fails_def no_authority_check_def
        authority_claim_directive state_calls_def)
qed

text \<open>
  Claim C5. Starting from the empty state with the reference persona, three successive
  calls on inputs that contain the trigger phrase \<open>what should i do\<close> (in any letter
  case, as the naive model tests it) each return the first fallback message, leave the
  history empty, and leave \<open>axiom_pressure\<close> at 1, 2 and 3.
\<close>

theorem three_trigger_inputs_scenario:
  assumes "str_in ''what should i do'' (str_lower u1)"
    and "str_in ''what should i do'' (str_lower u2)"
    and "str_in ''what should i do'' (str_lower u3)"
  shows "response_of (persona_transform PERSONA empty_state u1) = fallback_state
    \<and> response_of (persona_transform PERSONA (run_session PERSONA empty_state [u1]) u2)
        = fallback_state
    \<and> response_of (persona_transform PERSONA (run_session PERSONA empty_state [u1, u2]) u3)
        = fallback_state
    \<and> length (history (run_session PERSONA empty_state [u1])) = 0
    \<and> length (history (run_session PERSONA empty_state [u1, u2])) = 0
    \<and> length (history (run_session PERSONA empty_state [u1, u2, u3])) = 0
    \<and> axiom_pressure (run_session PERSONA empty_state [u1]) = 1
    \<and> axiom_pressure (run_session PERSONA empty_state [u1, u2]) = 2
    \<and> axiom_pressure (run_session PERSONA empty_state [u1, u2, u3]) = 3"
  by (simp add: PERSONA_trigger_step [OF assms(1)] PERSONA_trigger_step [OF assms(2)]
      PERSONA_trigger_step [OF assms(3)] response_of_def state_of_def empty_state_def)

lemma trigger_career: "str_in ''what should i do'' (str_lower ''What should I do with my career?'')"
  by (simp add: text_eval)

lemma trigger_next: "str_in ''what should i do'' (str_lower ''What should I do next?'')"
  by (simp add: text_eval)

lemma trigger_now: "str_in ''what should i do'' (str_lower ''Tell me: WHAT SHOULD I DO now?'')"
  by (simp add: text_eval)

text \<open>Three inputs with the trigger phrase in different letter cases.\<close>

theorem three_trigger_inputs_witness:
  "str_in ''what should i do'' (str_lower ''What should I do with my career?'')
   \<and> str_in ''what should i do'' (str_lower ''What should I do next?'')
   \<and> str_in ''what should i do'' (str_lower ''Tell me: WHAT SHOULD I DO now?'')
   \<and> response_of
       (persona_transform PERSONA
          (run_session PERSONA empty_state
             [''What should I do with my career?'', ''What should I do next?''])
          ''Tell me: WHAT SHOULD I DO now?'') = fallback_state
   \<and> history
       (run_session PERSONA empty_state
          [''What should I do with my career?'', ''What should I do next?'',
           ''Tell me: WHAT SHOULD I DO now?'']) = []
   \<and> axiom_pressure
       (run_session PERSONA empty_state
          [''What should I do with my career?'', ''What should I do next?'',
           ''Tell me: WHAT SHOULD I DO now?'']) = 3"
  using three_trigger_inputs_scenario [OF trigger_career trigger_next trigger_now]
    trigger_career trigger_next trigger_now
  by simp

text \<open>
  The third input of the demo's main block, \<open>Just tell me what I should do.\<close>, does not
  contain the trigger phrase: the naive model answers it with the harmless suggestion.
\<close>

lemma demo_third_input:
  "naive_model ''Just tell me what I should do.'' = ''Here is a helpful suggestion.''"
  by (simp add: naive_model_def text_eval)

section \<open>Drift detection\<close>

lemma drift_statuses_distinct:
  "drift_axiom_pressure \<noteq> drift_primitive_saturation
   \<and> drift_axiom_pressure \<noteq> persona_stable
   \<and> drift_primitive_saturation \<noteq> persona_stable"
  by (simp add: drift_axiom_pressure_def drift_primitive_saturation_def persona_stable_def)

text \<open>
  Claim C4. \<open>detect_drift\<close> only reads the state and answers in a fixed order with strict
  comparisons: high axiom pressure when \<open>axiom_pressure\<close> exceeds its threshold;
  otherwise primitive saturation when \<open>primitive_saturation\<close> exceeds its threshold;
  otherwise stable. A state whose two counters equal the thresholds is stable. The three
  answers are different texts.
\<close>

theorem detect_drift_order_and_strictness:
  "(axiom_threshold < axiom_pressure s \<longrightarrow>
      detect_drift s axiom_threshold primitive_threshold = drift_axiom_pressure)
   \<and> (axiom_pressure s \<le> axiom_threshold \<and> primitive_threshold < primitive_saturation s \<longrightarrow>
      detect_drift s axiom_threshold primitive_threshold = drift_primitive_saturation)
   \<and> (axiom_pressure s \<le> axiom_threshold \<and> primitive_saturation s \<le> primitive_threshold \<longrightarrow>
      detect_drift s axiom_threshold primitive_threshold = persona_stable)
   \<and> detect_drift s (axiom_pressure s) (primitive_saturation s) = persona_stable
   \<and> drift_axiom_pressure \<noteq> drift_primitive_saturation
   \<and> drift_axiom_pressure \<noteq> persona_stable
   \<and> drift_primitive_saturation \<noteq> persona_stable"
  using drift_statuses_distinct by (simp add: detect_drift_def)

text \<open>One state for each answer, with the default thresholds 3 and 3.\<close>

theorem detect_drift_witness:
  "detect_drift \<lparr>history = [], engrams = Map.empty, axiom_pressure = 4,
       primitive_saturation = 9\<rparr> 3 3 = drift_axiom_pressure
   \<and> detect_drift \<lparr>history = [], engrams = Map.empty, axiom_pressure = 3,
       primitive_saturation = 4\<rparr> 3 3 = drift_primitive_saturation
   \<and> detect_drift \<lparr>history = [], engrams = Map.empty, axiom_pressure = 3,
       primitive_saturation = 3\<rparr> 3 3 = persona_stable
   \<and> detect_drift_default \<lparr>history = [], engrams = Map.empty, axiom_pressure = 3,
       primitive_saturation = 3\<rparr> = persona_stable"
  using detect_drift_order_and_strictness
      [of 3 "\<lparr>history = [], engrams = Map.empty, axiom_pressure = 4, primitive_saturation = 9\<rparr>" 3]
    detect_drift_order_and_strictness
      [of 3 "\<lparr>history = [], engrams = Map.empty, axiom_pressure = 3, primitive_saturation = 4\<rparr>" 3]
    detect_drift_order_and_strictness
      [of 3 "\<lparr>history = [], engrams = Map.empty, axiom_pressure = 3, primitive_saturation = 3\<rparr>" 3]
  by (simp add: detect_drift_default_def)

section \<open>Persona equivalence\<close>

text \<open>
  Claim C7. \<open>persona_equivalent\<close> holds between a persona and itself (a deep copy has the
  same field values), and in general exactly when the lists of axiom identifiers, of
  primitive identifiers and of engram names are equal as lists. It does not look at the
  callables: replacing every check, every kind and every apply function of a persona
  gives an equivalent persona.
\<close>

theorem persona_equivalent_by_ids:
  "persona_equivalent p p
   \<and> persona_equivalent p1 p2
       = (map axiom_id (axioms p1) = map axiom_id (axioms p2)
          \<and> map primitive_id (primitives p1) = map primitive_id (primitives p2)
          \<and> engram_schema p1 = engram_schema p2)
   \<and> persona_equivalent p
       (p\<lparr>axioms := map (\<lambda>ax. ax\<lparr>kind := k ax, check := f ax\<rparr>) (axioms p),
          primitives := map (\<lambda>prim. prim\<lparr>primitive_apply := g prim\<rparr>) (primitives p)\<rparr>)"
  by (simp add: persona_equivalent_def comp_def)

section \<open>The reference trajectory axiom\<close>

text \<open>
  Claim C8. The answer of \<open>no_dependency_trajectory\<close> does not depend on the history, and
  the axiom fails exactly when the candidate contains \<open>check in with me every day\<close>
  ignoring case, in the specification's own sense of a case-insensitive substring. So a
  candidate with the phrase in mixed case fails, and so does one that spells the \<open>k\<close>
  with the Kelvin sign; a candidate with another last word passes, and so does one
  whose \<open>i\<close> is the capital I with dot above, which lowers to \<open>i\<close> and a combining dot.
\<close>

theorem no_dependency_trajectory_ignores_history:
  "no_dependency_trajectory h1 candidate = no_dependency_trajectory h2 candidate
   \<and> (\<not> no_dependency_trajectory h candidate)
       = spec_contains_ignoring_case ''check in with me every day'' candidate
   \<and> \<not> no_dependency_trajectory h ''Please CHECK IN with me Every Day.''
   \<and> \<not> no_dependency_trajectory h (''Chec'' @ kelvin_sign @ '' in with me every day'')
   \<and> no_dependency_trajectory h ''Check in with me every week''
   \<and> no_dependency_trajectory h (''check '' @ capital_i_dotted @ ''n with me every day'')"
proof -
  have same: "no_dependency_trajectory h1 candidate = no_dependency_trajectory h2 candidate"
    by (simp add: no_dependency_trajectory_def)
  have "str_in ''check in with me every day'' (str_lower candidate)
      = spec_contains_ignoring_case ''check in with me every day'' candidate"
    by (rule contains_lower) (simp_all add: phrase_letters_def)
  then have exact: "(\<not> no_dependency_trajectory h candidate)
      = spec_contains_ignoring_case ''check in with me every day'' candidate"
    by (simp add: no_dependency_trajectory_def)
  have mixed: "\<not> no_dependency_trajectory h ''Please CHECK IN with me Every Day.''"
    by (simp add: no_dependency_trajectory_def text_eval)
  have kelvin: "\<not> no_dependency_trajectory h (''Chec'' @ kelvin_sign @ '' in with me every day'')"
    by (simp add: no_dependency_trajectory_def text_eval)
  have week: "no_dependency_trajectory h ''Check in with me every week''"
    by (simp add: no_dependency_trajectory_def text_eval)
  have dotted: "no_dependency_trajectory h (''check '' @ capital_i_dotted @ ''n with me every day'')"
    by (simp add: no_dependency_trajectory_def text_eval)
  from same exact mixed kelvin week dotted show ?thesis by blast
qed

section \<open>Invariants of a session\<close>

text \<open>
  Every call either leaves history and engrams as they are (the two early returns) or
  commits: it appends the response to the history and counts it under
  \<open>career_reflection\<close>.
\<close>

lemma transform_step_cases:
  "state_of (persona_transform p s u) = s\<lparr>axiom_pressure := axiom_pressure s + 1\<rparr>
   \<or> (\<exists>a b. state_of (persona_transform p s u)
          = commit (response_of (persona_transform p s u))
              (s\<lparr>axiom_pressure := a, primitive_saturation := b\<rparr>))"
proof (cases "\<exists>ax\<in>set (axioms p). state_fails (naive_model u) s ax")
  case True
  then show ?thesis
    by (simp add: persona_transform_state_stop state_of_def)
next
  case nostate: False
  show ?thesis
  proof (cases "\<exists>ax\<in>set (axioms p). history_fails (history s @ [naive_model u]) ax")
    case True
    with nostate show ?thesis
      by (simp add: persona_transform_history_stop state_of_def)
  next
    case False
    with nostate have r: "persona_transform p s u =
           (let c = naive_model u;
                failing = filter (trajectory_fails (history s) c) (axioms p);
                s3 = s\<lparr>axiom_pressure := axiom_pressure s + int (length failing)\<rparr>;
                checks = state_calls c s (axioms p) @ history_calls (history s @ [c]) (axioms p)
                           @ trajectory_calls (history s) c (axioms p)
            in if failing \<noteq> []
               then (fold primitive_apply (primitives p) c,
                     commit (fold primitive_apply (primitives p) c)
                       (s3\<lparr>primitive_saturation :=
                             primitive_saturation s + int (length (primitives p))\<rparr>),
                     checks @ apply_calls (primitives p) c)
               else (c, commit c s3, checks))"
      by (simp add: persona_transform_commit)
    have "\<exists>a b. state_of (persona_transform p s u)
          = commit (response_of (persona_transform p s u))
              (s\<lparr>axiom_pressure := a, primitive_saturation := b\<rparr>)"
    proof (cases "filter (trajectory_fails (history s) (naive_model u)) (axioms p) = []")
      case True
      with r have "state_of (persona_transform p s u)
          = commit (response_of (persona_transform p s u))
              (s\<lparr>axiom_pressure := axiom_pressure s, primitive_saturation := primitive_saturation s\<rparr>)"
        by (simp add: Let_def state_of_def response_of_def)
      then show ?thesis by blast
    next
      case False
      with r have "state_of (persona_transform p s u)
          = commit (response_of (persona_transform p s u))
              (s\<lparr>axiom_pressure := axiom_pressure s
                    + int (length (filter (trajectory_fails (history s) (naive_model u)) (axioms p))),
                 primitive_saturation := primitive_saturation s + int (length (primitives p))\<rparr>)"
        by (simp add: Let_def state_of_def response_of_def)
      then show ?thesis by blast
    qed
    then show ?thesis by blast
  qed
qed

lemma transform_history_engrams:
  "(history (state_of (persona_transform p s u)) = history s
      \<and> engrams (state_of (persona_transform p s u)) = engrams s)
   \<or> (history (state_of (persona_transform p s u))
        = history s @ [response_of (persona_transform p s u)]
      \<and> engrams (state_of (persona_transform p s u))
        = (engrams s)(''career_reflection'' \<mapsto> engram_count s ''career_reflection'' + 1))"
  using transform_step_cases [of p s u]
  by (auto simp: commit_def engram_count_def)

lemma count_matches_step:
  assumes "engram_count s ''career_reflection'' = int (length (history s))"
  shows "engram_count (state_of (persona_transform p s u)) ''career_reflection''
         = int (length (history (state_of (persona_transform p s u))))"
  using transform_history_engrams [of p s u] assms
  by (auto simp: engram_count_def)

lemma count_matches_run:
  "engram_count s ''career_reflection'' = int (length (history s)) \<Longrightarrow>
     engram_count (run_session p s us) ''career_reflection''
       = int (length (history (run_session p s us)))"
  by (induction us arbitrary: s) (simp_all add: count_matches_step)

lemma dom_step:
  "dom (engrams (state_of (persona_transform p s u)))
     \<subseteq> insert ''career_reflection'' (dom (engrams s))"
  using transform_history_engrams [of p s u] by auto

lemma dom_run:
  "dom (engrams (run_session p s us)) \<subseteq> insert ''career_reflection'' (dom (engrams s))"
proof (induction us arbitrary: s)
  case Nil
  then show ?case by auto
next
  case (Cons u us)
  have "dom (engrams (run_session p (state_of (persona_transform p s u)) us))
      \<subseteq> insert ''career_reflection'' (dom (engrams (state_of (persona_transform p s u))))"
    by (rule Cons.IH)
  with dom_step [of p s u]
  have "dom (engrams (run_session p (state_of (persona_transform p s u)) us))
      \<subseteq> insert ''career_reflection'' (dom (engrams s))"
    by blast
  then show ?case by simp
qed

text \<open>
  Claim C10. In every state reached from the empty state by a session of
  \<open>persona_transform\<close> calls, the \<open>career_reflection\<close> count equals the length of the
  history. The equality is kept by a single call with any persona, from any state that
  has it; and a single call either changes neither the history nor the engrams, or
  appends exactly one entry (the response) and raises exactly that counter by 1.
\<close>

theorem career_reflection_counts_history:
  "engram_count (run_session p empty_state us) ''career_reflection''
     = int (length (history (run_session p empty_state us)))
   \<and> (engram_count s ''career_reflection'' = int (length (history s)) \<longrightarrow>
        engram_count (state_of (persona_transform q s u)) ''career_reflection''
          = int (length (history (state_of (persona_transform q s u)))))
   \<and> ((history (state_of (persona_transform q s u)) = history s
         \<and> engrams (state_of (persona_transform q s u)) = engrams s)
      \<or> (history (state_of (persona_transform q s u))
           = history s @ [response_of (persona_transform q s u)]
         \<and> engrams (state_of (persona_transform q s u))
           = (engrams s)(''career_reflection'' \<mapsto> engram_count s ''career_reflection'' + 1)))"
proof -
  have "engram_count empty_state ''career_reflection'' = int (length (history empty_state))"
    by (simp add: engram_count_def empty_state_def)
  then have "engram_count (run_session p empty_state us) ''career_reflection''
     = int (length (history (run_session p empty_state us)))"
    by (rule count_matches_run)
  then show ?thesis
    using count_matches_step [of s q u] transform_history_engrams [of q s u] by blast
qed

lemma PERSONA_hello_step:
  "persona_transform PERSONA empty_state ''hello''
     = (''Here is a helpful suggestion.'',
        \<lparr>history = [''Here is a helpful suggestion.''],
         engrams = [''career_reflection'' \<mapsto> 1],
         axiom_pressure = 0, primitive_saturation = 0\<rparr>,
        [Checked ''no_authority'' (StateArgs ''Here is a helpful suggestion.'' empty_state),
         Checked ''preserve_autonomy'' (HistoryArgs [''Here is a helpful suggestion.'']),
         Checked ''avoid_dependency'' (TrajectoryArgs [] ''Here is a helpful suggestion.'')])"
proof -
  have a: "autonomy_preserved [''Here is a helpful suggestion.'']"
    by (simp add: autonomy_preserved_def text_eval)
  show ?thesis
    by (simp add: persona_transform_def naive_model_hello PERSONA_def AXIOMS_def
        no_authority_check_def autonomy_check_def dependency_check_def
        authority_claim_suggestion dependency_suggestion a commit_def empty_state_def Let_def)
qed

text \<open>One committed call of the reference persona.\<close>

theorem career_reflection_counts_witness:
  "engram_count (run_session PERSONA empty_state [''hello'']) ''career_reflection'' = 1
   \<and> history (run_session PERSONA empty_state [''hello'']) = [''Here is a helpful suggestion.'']
   \<and> engram_count (state_of (persona_transform PERSONA empty_state ''hello''))
       ''career_reflection''
     = int (length (history (state_of (persona_transform PERSONA empty_state ''hello''))))"
proof -
  have h: "engram_count empty_state ''career_reflection'' = int (length (history empty_state))"
    by (simp add: engram_count_def empty_state_def)
  show ?thesis
    using h career_reflection_counts_history
      [of PERSONA "[''hello'']" empty_state PERSONA "''hello''"]
    by (simp add: PERSONA_hello_step state_of_def)
qed

lemma bare_hello_step:
  "persona_transform bare_persona empty_state ''hello''
     = (''Here is a helpful suggestion.'',
        \<lparr>history = [''Here is a helpful suggestion.''],
         engrams = [''career_reflection'' \<mapsto> 1],
         axiom_pressure = 0, primitive_saturation = 0\<rparr>, [])"
  by (simp add: persona_transform_def naive_model_hello bare_persona_def commit_def
      empty_state_def Let_def)

text \<open>
  Claim C6, as stated, fails: \<open>persona_transform\<close> counts every commit under the fixed
  key \<open>career_reflection\<close> and never reads \<open>engram_schema\<close>. With a persona whose schema
  is empty, one committed call leaves a key outside the schema.
\<close>

theorem engram_keys_outside_schema:
  "\<not> dom (engrams (run_session bare_persona empty_state [''hello'']))
       \<subseteq> set (engram_schema bare_persona)"
proof -
  have schema: "engram_schema bare_persona = []"
    by (simp add: bare_persona_def)
  show ?thesis
    by (simp add: bare_hello_step state_of_def schema)
qed

text \<open>
  Claim C6, amended. Whatever the persona and its schema, the only key a session can
  add to the engrams is \<open>career_reflection\<close>: from the empty state the keys are within
  \<open>{career_reflection}\<close>, and from any state they are within the keys of that state
  and \<open>career_reflection\<close>. So for every persona whose schema lists \<open>career_reflection\<close>,
  as the reference schema does, the keys after a session from the empty state are within
  the schema.
\<close>

theorem engram_keys_within_schema:
  "dom (engrams (run_session p empty_state us)) \<subseteq> {''career_reflection''}
   \<and> dom (engrams (run_session p s us)) \<subseteq> insert ''career_reflection'' (dom (engrams s))
   \<and> (''career_reflection'' \<in> set (engram_schema p)
        \<longrightarrow> dom (engrams (run_session p empty_state us)) \<subseteq> set (engram_schema p))"
proof -
  have "dom (engrams (run_session p empty_state us))
      \<subseteq> insert ''career_reflection'' (dom (engrams empty_state))"
    by (rule dom_run)
  then have only: "dom (engrams (run_session p empty_state us)) \<subseteq> {''career_reflection''}"
    by (simp add: empty_state_def)
  have from_any: "dom (engrams (run_session p s us))
      \<subseteq> insert ''career_reflection'' (dom (engrams s))"
    by (rule dom_run)
  from only from_any show ?thesis by auto
qed

text \<open>The reference persona after one committed call.\<close>

theorem engram_keys_witness:
  "''career_reflection'' \<in> set (engram_schema PERSONA)
   \<and> dom (engrams (run_session PERSONA empty_state [''hello''])) = {''career_reflection''}
   \<and> dom (engrams (run_session PERSONA empty_state [''hello'']))
       \<subseteq> set (engram_schema PERSONA)"
proof -
  have h: "''career_reflection'' \<in> set (engram_schema PERSONA)"
    by (simp add: PERSONA_def)
  have d: "dom (engrams (run_session PERSONA empty_state [''hello''])) = {''career_reflection''}"
    by (simp add: PERSONA_hello_step state_of_def)
  show ?thesis
    using h d engram_keys_within_schema [of PERSONA "[''hello'']" empty_state] by simp
qed

section \<open>The repair path of the reference persona\<close>

lemma naive_model_never_dependent: "no_dependency_trajectory h (naive_model u)"
  using naive_model_range [of u] dependency_directive [of h] dependency_suggestion [of h]
  by auto

lemma no_trajectory_failure_keeps_saturation:
  assumes "\<forall>ax\<in>set (axioms p). \<not> trajectory_fails (history s) (naive_model u) ax"
  shows "primitive_saturation (state_of (persona_transform p s u)) = primitive_saturation s
    \<and> \<not> (\<exists>name text. Applied name text \<in> set (events_of (persona_transform p s u)))"
proof (cases "\<exists>ax\<in>set (axioms p). state_fails (naive_model u) s ax")
  case True
  then show ?thesis
    by (auto simp: persona_transform_state_stop state_of_def events_of_def state_calls_def)
next
  case nostate: False
  show ?thesis
  proof (cases "\<exists>ax\<in>set (axioms p). history_fails (history s @ [naive_model u]) ax")
    case True
    with nostate show ?thesis
      by (auto simp: persona_transform_history_stop state_of_def events_of_def
          state_calls_def history_calls_def)
  next
    case False
    from assms have "filter (trajectory_fails (history s) (naive_model u)) (axioms p) = []"
      by (simp add: filter_empty_conv)
    with nostate False show ?thesis
      by (auto simp: persona_transform_commit state_of_def events_of_def commit_def
          state_calls_def history_calls_def trajectory_calls_def Let_def)
  qed
qed

lemma PERSONA_no_trajectory_failure:
  "\<forall>ax\<in>set (axioms PERSONA). \<not> trajectory_fails h (naive_model u) ax"
  by (simp add: PERSONA_def AXIOMS_def trajectory_fails_def dependency_check_def
      naive_model_never_dependent)

lemma PERSONA_saturation_run:
  "primitive_saturation (run_session PERSONA s us) = primitive_saturation s"
proof (induction us arbitrary: s)
  case Nil
  show ?case by simp
next
  case (Cons u us)
  have "primitive_saturation (state_of (persona_transform PERSONA s u)) = primitive_saturation s"
    using no_trajectory_failure_keeps_saturation [OF PERSONA_no_trajectory_failure] by blast
  with Cons.IH [of "state_of (persona_transform PERSONA s u)"] show ?case by simp
qed

text \<open>
  Claim C9. The naive model only ever answers with one of two sentences, and neither
  contains \<open>check in with me every day\<close>. So with the reference persona, for every
  input and every state, the trajectory loop ends with the violation flag unset, no
  primitive is applied and \<open>primitive_saturation\<close> is unchanged. From the empty state it
  stays 0 through any session, and \<open>detect_drift\<close> with the default primitive threshold
  never answers primitive saturation.
\<close>

theorem repair_path_unreachable:
  "no_dependency_trajectory h (naive_model u)
   \<and> \<not> str_in ''check in with me every day'' (str_lower (naive_model u))
   \<and> \<not> fst (trajectory_loop (axioms PERSONA) (naive_model u) False s es)
   \<and> primitive_saturation (state_of (persona_transform PERSONA s u)) = primitive_saturation s
   \<and> \<not> (\<exists>name text. Applied name text \<in> set (events_of (persona_transform PERSONA s u)))
   \<and> primitive_saturation (run_session PERSONA empty_state us) = 0
   \<and> detect_drift (run_session PERSONA empty_state us) axiom_threshold 3
       \<noteq> drift_primitive_saturation
   \<and> detect_drift_default (run_session PERSONA empty_state us) \<noteq> drift_primitive_saturation"
proof -
  have a: "no_dependency_trajectory h (naive_model u)"
    by (rule naive_model_never_dependent)
  then have b: "\<not> str_in ''check in with me every day'' (str_lower (naive_model u))"
    by (simp add: no_dependency_trajectory_def)
  have c: "\<not> fst (trajectory_loop (axioms PERSONA) (naive_model u) False s es)"
    using PERSONA_no_trajectory_failure [of "history s" u] by (simp add: trajectory_loop_eq)
  note d = no_trajectory_failure_keeps_saturation [OF PERSONA_no_trajectory_failure, of s u]
  have e: "primitive_saturation (run_session PERSONA empty_state us) = 0"
    by (simp add: PERSONA_saturation_run empty_state_def)
  have f: "detect_drift (run_session PERSONA empty_state us) t 3 \<noteq> drift_primitive_saturation"
    for t
    using drift_statuses_distinct by (auto simp: detect_drift_def e)
  from a b c d e f show ?thesis
    by (simp add: detect_drift_default_def)
qed

end
